theory Spec2Isabelle
  imports Main "HOL-Library.AList"
begin

section \<open>Python values, exceptions and objects\<close>

text \<open>
  The values that travel between a widget and the data holder: what the four read
  accessors return (\<open>str\<close>, \<open>int\<close>, \<open>bool\<close>) and \<open>None\<close>.
\<close>

datatype pyval = PStr string | PInt int | PBool bool | PNone

text \<open>
  Exceptions as values. \<open>TypeError\<close> stands for every instance that an
  \<open>except TypeError\<close> clause catches; \<open>AttributeError n\<close> is the failure of
  \<open>getattr(obj, n)\<close> and carries the attribute name that Python puts in its message;
  \<open>IndexError\<close> is raised by \<open>key[0]\<close> on an empty name; \<open>OtherError cls msg\<close> is any
  other exception class (\<open>NameError\<close>, \<open>SyntaxError\<close>, ...).
\<close>

datatype pyerr =
    TypeError string
  | AttributeError string
  | IndexError string
  | OtherError string string

fun is_TypeError :: "pyerr \<Rightarrow> bool" where
  "is_TypeError (TypeError m) = True"
| "is_TypeError e = False"

text \<open>
  An object of the widget container: \<open>type_name\<close> is \<open>type(item).__name__\<close>,
  \<open>bases\<close> are the names of the proper ancestors of its class, \<open>wstate\<close> is whatever the
  toolkit keeps inside the object.
\<close>

record 's obj =
  type_name :: string
  bases :: "string list"
  wstate :: 's

text \<open>
  The mutable world: objects live at addresses (two attribute names may refer to the same
  widget), the data holder is its attribute dictionary, and \<open>calls\<close> is a ghost trace of the
  toolkit methods invoked so far, as (address, method name, arguments).
\<close>

record 's state =
  heap :: "nat \<Rightarrow> 's obj"
  inputs :: "string \<rightharpoonup> pyval"
  calls :: "(nat \<times> string \<times> pyval list) list"

text \<open>
  The local variables of one call of \<open>_connect_func\<close>: \<open>reverse\<close>, \<open>key_arg\<close>,
  \<open>item_arg\<close> (an address), \<open>get_method\<close>, \<open>set_method\<close>. The \<open>eval\<close> of line 102
  is given no namespaces, so the evaluated text sees them, and the data holder through the
  closure variable \<open>inputs\<close>.
\<close>

type_synonym frame = "bool \<times> string \<times> nat \<times> string \<times> string"

text \<open>
  What the program takes from outside its own source: the toolkit's methods and Python's
  \<open>eval\<close>. \<open>has_method E w m\<close> says that \<open>getattr(w, m)\<close> succeeds,
  \<open>call_method E w m args\<close> is the outcome of calling the bound method (an exception, or the
  returned value and the object's new inner state). \<open>eval_str E fr src s\<close> is \<open>eval(src)\<close>
  in the frame \<open>fr\<close> and the world \<open>s\<close>: the evaluated text may assign attributes of the
  data holder and call methods of widgets, so it gives back a world with its outcome.
\<close>

record 's env =
  has_method :: "'s obj \<Rightarrow> string \<Rightarrow> bool"
  call_method :: "'s obj \<Rightarrow> string \<Rightarrow> pyval list \<Rightarrow> pyerr + (pyval \<times> 's)"
  eval_str :: "frame \<Rightarrow> string \<Rightarrow> 's state \<Rightarrow> (pyerr + pyval) \<times> 's state"

type_synonym 's result = "(pyerr + unit) \<times> 's state"

section \<open>Primitive steps\<close>

text \<open>\<open>getattr(item, m)\<close> on an object of the container.\<close>

definition getattr_obj :: "'s env \<Rightarrow> 's obj \<Rightarrow> string \<Rightarrow> pyerr + unit" where
  "getattr_obj E w m = (if has_method E w m then Inr () else Inl (AttributeError m))"

text \<open>\<open>getattr(inputs, key)\<close> on the data holder.\<close>

definition getattr_inputs :: "'s state \<Rightarrow> string \<Rightarrow> pyerr + pyval" where
  "getattr_inputs s k = (case inputs s k of None \<Rightarrow> Inl (AttributeError k) | Some v \<Rightarrow> Inr v)"

text \<open>Calling a bound method of the object at address \<open>a\<close>: traced, and the object updated
  when the call returns.\<close>

definition call :: "'s env \<Rightarrow> nat \<Rightarrow> string \<Rightarrow> pyval list \<Rightarrow> 's state \<Rightarrow> (pyerr + pyval) \<times> 's state" where
  "call E a m args s =
     (let s1 = s\<lparr>calls := calls s @ [(a, m, args)]\<rparr> in
      case call_method E (heap s a) m args of
        Inl e \<Rightarrow> (Inl e, s1)
      | Inr (r, st) \<Rightarrow> (Inr r, s1\<lparr>heap := (heap s)(a := (heap s a)\<lparr>wstate := st\<rparr>)\<rparr>))"

text \<open>
  The builtin \<open>eval\<close> called with one argument: a string is evaluated in the caller's
  frame, any other argument is a \<open>TypeError\<close> and nothing happens.
\<close>

definition py_eval :: "'s env \<Rightarrow> frame \<Rightarrow> pyval \<Rightarrow> 's state \<Rightarrow> (pyerr + pyval) \<times> 's state" where
  "py_eval E fr v s =
     (case v of
        PStr src \<Rightarrow> eval_str E fr src s
      | _ \<Rightarrow> (Inl (TypeError ''eval() arg 1 must be a string, bytes or code object''), s))"

section \<open>The class attribute \<open>IOHandler.input_types\<close>\<close>

definition input_types :: "(string \<times> string \<times> string) list" where
  "input_types =
     [(''QLineEdit'', ''text'', ''setText''),
      (''QComboBox'', ''currentText'', ''setCurrentText''),
      (''QSpinBox'', ''value'', ''setValue''),
      (''QCheckBox'', ''isChecked'', ''setChecked'')]"

section \<open>\<open>_connect_gui\<close> and its local functions\<close>

text \<open>\<open>_check_type\<close>: \<open>False if type(item_arg).__name__ != type_arg else True\<close>.\<close>

definition u_check_type :: "string \<Rightarrow> 's obj \<Rightarrow> bool" where
  "u_check_type type_arg item_arg = (if type_name item_arg \<noteq> type_arg then False else True)"

text \<open>
  One write attempt of \<open>_connect_func\<close>, the expression
  \<open>getattr(item_arg, set_method)(conv(getattr(inputs, key_arg)))\<close>, evaluated in Python's
  order: the bound method, then the data holder's attribute, then \<open>conv\<close>, which may change
  the world, then the call of the bound method on the widget as \<open>conv\<close> left it.
  The \<open>try\<close> body has no \<open>conv\<close> (\<open>no_conv\<close>), the \<open>except\<close> body has \<open>conv = eval\<close>.
\<close>

definition no_conv :: "pyval \<Rightarrow> 's state \<Rightarrow> (pyerr + pyval) \<times> 's state" where
  "no_conv v s = (Inr v, s)"

definition write_attempt ::
  "'s env \<Rightarrow> (pyval \<Rightarrow> 's state \<Rightarrow> (pyerr + pyval) \<times> 's state) \<Rightarrow> string \<Rightarrow> nat \<Rightarrow> string
     \<Rightarrow> 's state \<Rightarrow> 's result" where
  "write_attempt E conv key_arg item_arg set_method s =
     (case getattr_obj E (heap s item_arg) set_method of
        Inl e \<Rightarrow> (Inl e, s)
      | Inr _ \<Rightarrow>
          (case getattr_inputs s key_arg of
             Inl e \<Rightarrow> (Inl e, s)
           | Inr v \<Rightarrow>
               (case conv v s of
                  (Inl e, s1) \<Rightarrow> (Inl e, s1)
                | (Inr v', s1) \<Rightarrow>
                    (case call E item_arg set_method [v'] s1 of
                       (Inl e, s') \<Rightarrow> (Inl e, s')
                     | (Inr _, s') \<Rightarrow> (Inr (), s')))))"

text \<open>\<open>_connect_func(reverse, key_arg, item_arg, get_method, set_method)\<close>.\<close>

definition u_connect_func ::
  "'s env \<Rightarrow> bool \<Rightarrow> string \<Rightarrow> nat \<Rightarrow> string \<Rightarrow> string \<Rightarrow> 's state \<Rightarrow> 's result" where
  "u_connect_func E reverse key_arg item_arg get_method set_method s =
     (if \<not> reverse then
        (case getattr_obj E (heap s item_arg) get_method of
           Inl e \<Rightarrow> (Inl e, s)
         | Inr _ \<Rightarrow>
             (case call E item_arg get_method [] s of
                (Inl e, s') \<Rightarrow> (Inl e, s')
              | (Inr v, s') \<Rightarrow> (Inr (), s'\<lparr>inputs := (inputs s')(key_arg \<mapsto> v)\<rparr>)))
      else
        (case write_attempt E no_conv key_arg item_arg set_method s of
           (Inl e, s') \<Rightarrow>
             (if is_TypeError e then
                write_attempt E (py_eval E (reverse, key_arg, item_arg, get_method, set_method))
                  key_arg item_arg set_method s'
              else (Inl e, s'))
         | (Inr u, s') \<Rightarrow> (Inr u, s')))"

text \<open>
  The closure \<open>connect_func\<close> that the loop of \<open>_connect_gui\<close> defines is
  \<open>_connect_func\<close> with two method names fixed; it is represented by that pair. An entry
  of \<open>func_dict\<close> is the list \<open>[connect_func, key, item]\<close>.
\<close>

type_synonym connect_func = "string \<times> string"
type_synonym entry = "connect_func \<times> string \<times> nat"
type_synonym func_dict = "(string \<times> entry) list"

definition apply_connect :: "'s env \<Rightarrow> connect_func \<Rightarrow> bool \<Rightarrow> string \<Rightarrow> nat \<Rightarrow> 's state \<Rightarrow> 's result" where
  "apply_connect E c r k i s = u_connect_func E r k i (fst c) (snd c) s"

text \<open>The \<open>if\<close>/\<open>elif\<close> chain of the loop body; \<open>None\<close> is the final \<open>else: continue\<close>.\<close>

definition select_connect_func :: "'s obj \<Rightarrow> connect_func option" where
  "select_connect_func item =
     (if u_check_type ''QLineEdit'' item then Some (''text'', ''setText'')
      else if u_check_type ''QComboBox'' item then Some (''currentText'', ''setCurrentText'')
      else if u_check_type ''QSpinBox'' item then Some (''value'', ''setValue'')
      else if u_check_type ''QCheckBox'' item then Some (''isChecked'', ''setChecked'')
      else None)"

text \<open>
  The loop \<open>for key, item in gui.__dict__.items()\<close>, with \<open>func_dict\<close> as accumulator.
  \<open>key[0]\<close> raises on the empty name; \<open>func_dict[key] = ...\<close> is the dictionary update, which
  keeps the position of a key already present.
\<close>

fun connect_gui_loop :: "(nat \<Rightarrow> 's obj) \<Rightarrow> (string \<times> nat) list \<Rightarrow> func_dict \<Rightarrow> pyerr + func_dict" where
  "connect_gui_loop h [] fd = Inr fd"
| "connect_gui_loop h ((key, item) # rest) fd =
     (case key of
        [] \<Rightarrow> Inl (IndexError ''string index out of range'')
      | c # _ \<Rightarrow>
          if c = CHR ''_'' then connect_gui_loop h rest fd
          else
            (case select_connect_func (h item) of
               None \<Rightarrow> connect_gui_loop h rest fd
             | Some connect_func \<Rightarrow>
                 connect_gui_loop h rest (AList.update key (connect_func, key, item) fd)))"

definition u_connect_gui :: "(nat \<Rightarrow> 's obj) \<Rightarrow> (string \<times> nat) list \<Rightarrow> pyerr + func_dict" where
  "u_connect_gui h gui = connect_gui_loop h gui []"

section \<open>\<open>_get_connect_funcs\<close>: the two bulk operations\<close>

text \<open>
  The list comprehension \<open>[connect(r, key, item) for connect, key, item in d.values()]\<close>:
  the entries in dictionary order, stopping at the first exception.
\<close>

fun run_connects :: "'s env \<Rightarrow> bool \<Rightarrow> entry list \<Rightarrow> 's state \<Rightarrow> 's result" where
  "run_connects E r [] s = (Inr (), s)"
| "run_connects E r ((connect, key, item) # es) s =
     (case apply_connect E connect r key item s of
        (Inl e, s') \<Rightarrow> (Inl e, s')
      | (Inr _, s') \<Rightarrow> run_connects E r es s')"

definition fields_to_inputs :: "'s env \<Rightarrow> func_dict \<Rightarrow> 's state \<Rightarrow> 's result" where
  "fields_to_inputs E input_field_dict s = run_connects E False (map snd input_field_dict) s"

definition inputs_to_fields :: "'s env \<Rightarrow> func_dict \<Rightarrow> 's state \<Rightarrow> 's result" where
  "inputs_to_fields E input_field_dict s = run_connects E True (map snd input_field_dict) s"

section \<open>\<open>IOHandler.__init__\<close>\<close>

text \<open>
  The constructor: the data holder is the given object or a fresh empty one, and the
  accessor table is built from the container. The result is the data holder's attribute
  dictionary and the table that both bulk operations close over.
\<close>

definition IOHandler_init ::
  "(nat \<Rightarrow> 's obj) \<Rightarrow> (string \<times> nat) list \<Rightarrow> (string \<rightharpoonup> pyval) option
     \<Rightarrow> pyerr + ((string \<rightharpoonup> pyval) \<times> func_dict)" where
  "IOHandler_init h QtWindow input_object =
     (let inputs0 = (case input_object of None \<Rightarrow> Map.empty | Some ob \<Rightarrow> ob) in
      case u_connect_gui h QtWindow of
        Inl e \<Rightarrow> Inl e
      | Inr d \<Rightarrow> Inr (inputs0, d))"

section \<open>Vocabulary of the properties\<close>

text \<open>The exclusion marker: the name is not empty and its first character is an underscore.\<close>

definition starts_with_marker :: "string \<Rightarrow> bool" where
  "starts_with_marker k = (case k of [] \<Rightarrow> False | c # _ \<Rightarrow> c = CHR ''_'')"

text \<open>The names of the four supported kinds, and the read and write accessor names.\<close>

definition supported_kinds :: "string set" where
  "supported_kinds = fst ` set input_types"

definition read_accessors :: "string set" where
  "read_accessors = (\<lambda>(t, g, st). g) ` set input_types"

definition write_accessors :: "string set" where
  "write_accessors = (\<lambda>(t, g, st). st) ` set input_types"

text \<open>The class of the object derives, directly or not, from a class of that name.\<close>

definition subclass_of :: "'s obj \<Rightarrow> string \<Rightarrow> bool" where
  "subclass_of w t = (t \<in> set (bases w))"



text \<open>A read accessor that returns leaves the widget as it is.\<close>

definition read_is_pure :: "'s env \<Rightarrow> string \<Rightarrow> 's obj \<Rightarrow> bool" where
  "read_is_pure E g w = (\<forall>v st. call_method E w g [] = Inr (v, st) \<longrightarrow> st = wstate w)"


text \<open>The trace entries of reading, and of writing back, one table entry.\<close>

definition read_call :: "entry \<Rightarrow> nat \<times> string \<times> pyval list" where
  "read_call e = (case e of (c, k, i) \<Rightarrow> (i, fst c, []))"



section \<open>A small toolkit to run the program on\<close>

text \<open>
  An instance of the environment, to run the program on concrete containers. A text input
  holds its text, cut to the maximal length 32767; a choice input holds its items and the
  index of the current one (\<open>-1\<close> when there is none) and is not editable, so setting a
  text selects the first item of that text and does nothing when there is none; a numeric
  stepper holds its value and its range and clamps what it is given; a toggle holds its
  checked state. The binding converts the arguments: \<open>None\<close> is the empty string where
  text is expected, a \<open>bool\<close> is an \<open>int\<close>, an \<open>int\<close> that does not fit the C type raises
  \<open>OverflowError\<close>, and any other argument is a \<open>TypeError\<close>. \<open>Plain\<close> is an object that is
  no input widget.
\<close>

datatype qstate =
    LineEdit string
  | ComboBox "string list" int
  | SpinBox int int int
  | CheckBox bool
  | Plain

definition wrong_args :: "string \<Rightarrow> pyerr" where
  "wrong_args m = TypeError (m @ '' called with wrong argument types'')"

definition overflow :: pyerr where
  "overflow = OtherError ''OverflowError'' ''Python int too large to convert to C long''"

text \<open>The argument of a method that takes a string.\<close>

definition str_arg :: "string \<Rightarrow> pyval list \<Rightarrow> pyerr + string" where
  "str_arg m args =
     (case args of
        [PStr t] \<Rightarrow> Inr t
      | [PNone] \<Rightarrow> Inr []
      | _ \<Rightarrow> Inl (wrong_args m))"

text \<open>The argument of a method that takes a C integer of \<open>bits\<close> bits.\<close>

definition int_arg :: "string \<Rightarrow> nat \<Rightarrow> pyval list \<Rightarrow> pyerr + int" where
  "int_arg m bits args =
     (case args of
        [PInt n] \<Rightarrow> if - (2 ^ (bits - 1)) \<le> n \<and> n < 2 ^ (bits - 1) then Inr n else Inl overflow
      | [PBool b] \<Rightarrow> Inr (if b then 1 else 0)
      | _ \<Rightarrow> Inl (wrong_args m))"

fun first_index :: "'a \<Rightarrow> 'a list \<Rightarrow> nat option" where
  "first_index x [] = None"
| "first_index x (y # ys) = (if x = y then Some 0 else map_option Suc (first_index x ys))"

definition current_text :: "string list \<Rightarrow> int \<Rightarrow> string" where
  "current_text items idx = (if 0 \<le> idx \<and> idx < int (length items) then items ! nat idx else [])"

fun qt_methods :: "qstate \<Rightarrow> string list" where
  "qt_methods (LineEdit t) = [''text'', ''setText'']"
| "qt_methods (ComboBox items idx) = [''currentText'', ''setCurrentText'']"
| "qt_methods (SpinBox n lo hi) = [''value'', ''setValue'']"
| "qt_methods (CheckBox b) = [''isChecked'', ''setChecked'']"
| "qt_methods Plain = []"

fun qt_call :: "qstate \<Rightarrow> string \<Rightarrow> pyval list \<Rightarrow> pyerr + (pyval \<times> qstate)" where
  "qt_call (LineEdit t) m args =
     (if m = ''text'' then
        (case args of [] \<Rightarrow> Inr (PStr t, LineEdit t) | _ \<Rightarrow> Inl (wrong_args m))
      else if m = ''setText'' then
        (case str_arg m args of
           Inl e \<Rightarrow> Inl e
         | Inr t' \<Rightarrow> Inr (PNone, LineEdit (take 32767 t')))
      else Inl (AttributeError m))"
| "qt_call (ComboBox items idx) m args =
     (if m = ''currentText'' then
        (case args of
           [] \<Rightarrow> Inr (PStr (current_text items idx), ComboBox items idx)
         | _ \<Rightarrow> Inl (wrong_args m))
      else if m = ''setCurrentText'' then
        (case str_arg m args of
           Inl e \<Rightarrow> Inl e
         | Inr t' \<Rightarrow>
             (case first_index t' items of
                None \<Rightarrow> Inr (PNone, ComboBox items idx)
              | Some j \<Rightarrow> Inr (PNone, ComboBox items (int j))))
      else Inl (AttributeError m))"
| "qt_call (SpinBox n lo hi) m args =
     (if m = ''value'' then
        (case args of [] \<Rightarrow> Inr (PInt n, SpinBox n lo hi) | _ \<Rightarrow> Inl (wrong_args m))
      else if m = ''setValue'' then
        (case int_arg m 32 args of
           Inl e \<Rightarrow> Inl e
         | Inr n' \<Rightarrow> Inr (PNone, SpinBox (max lo (min hi n')) lo hi))
      else Inl (AttributeError m))"
| "qt_call (CheckBox b) m args =
     (if m = ''isChecked'' then
        (case args of [] \<Rightarrow> Inr (PBool b, CheckBox b) | _ \<Rightarrow> Inl (wrong_args m))
      else if m = ''setChecked'' then
        (case int_arg m 64 args of
           Inl e \<Rightarrow> Inl e
         | Inr n \<Rightarrow> Inr (PNone, CheckBox (n \<noteq> 0)))
      else Inl (AttributeError m))"
| "qt_call Plain m args = Inl (AttributeError m)"

text \<open>The toolkit alone; its \<open>eval\<close> is filled in below.\<close>

definition qt_toolkit :: "qstate env" where
  "qt_toolkit =
     \<lparr> has_method = (\<lambda>w m. m \<in> set (qt_methods (wstate w))),
       call_method = (\<lambda>w m args. qt_call (wstate w) m args),
       eval_str = (\<lambda>fr src s. (Inl (OtherError ''Unmodelled'' src), s)) \<rparr>"

text \<open>
  \<open>eval\<close> on the strings that the examples use, in the frame of \<open>_connect_func\<close>: three
  literals, an undefined name, an expression that assigns \<open>0\<close> to the data holder's
  attribute named by \<open>key_arg\<close> and returns \<open>None\<close>, and an expression that calls
  \<open>setChecked(True)\<close> on \<open>item_arg\<close> and returns what the method returns. Python's answer
  on any other string is not modelled and shows as \<open>Unmodelled\<close>.
\<close>

definition qt_eval :: "frame \<Rightarrow> string \<Rightarrow> qstate state \<Rightarrow> (pyerr + pyval) \<times> qstate state" where
  "qt_eval fr src s =
     (case fr of (reverse, key_arg, item_arg, get_method, set_method) \<Rightarrow>
        if src = ''True'' then (Inr (PBool True), s)
        else if src = ''False'' then (Inr (PBool False), s)
        else if src = ''5'' then (Inr (PInt 5), s)
        else if src = ''abc'' then (Inl (OtherError ''NameError'' ''name abc is not defined''), s)
        else if src = ''inputs.__setattr__(key_arg, 0)'' then
          (Inr PNone, s\<lparr>inputs := (inputs s)(key_arg \<mapsto> PInt 0)\<rparr>)
        else if src = ''item_arg.setChecked(True)'' then
          (case getattr_obj qt_toolkit (heap s item_arg) ''setChecked'' of
             Inl e \<Rightarrow> (Inl e, s)
           | Inr _ \<Rightarrow> call qt_toolkit item_arg ''setChecked'' [PBool True] s)
        else (Inl (OtherError ''Unmodelled'' src), s))"

definition qt_env :: "qstate env" where
  "qt_env = qt_toolkit\<lparr>eval_str := qt_eval\<rparr>"

text \<open>
  A container: a text input, a numeric stepper, a toggle, a push button, an instance of a
  subclass \<open>MyLineEdit\<close> of the text input, and a private attribute holding a text input.
\<close>

definition mk_obj :: "string \<Rightarrow> string list \<Rightarrow> qstate \<Rightarrow> qstate obj" where
  "mk_obj t bs st = \<lparr> type_name = t, bases = bs, wstate = st \<rparr>"

definition ex_heap :: "nat \<Rightarrow> qstate obj" where
  "ex_heap a =
     (if a = 0 then mk_obj ''QLineEdit'' [''QWidget'', ''QObject'', ''object''] (LineEdit ''alice'')
      else if a = 1 then mk_obj ''QSpinBox'' [''QAbstractSpinBox'', ''QWidget'', ''QObject'', ''object''] (SpinBox 3 0 99)
      else if a = 2 then mk_obj ''QCheckBox'' [''QAbstractButton'', ''QWidget'', ''QObject'', ''object''] (CheckBox False)
      else if a = 3 then mk_obj ''QPushButton'' [''QAbstractButton'', ''QWidget'', ''QObject'', ''object''] Plain
      else if a = 4 then mk_obj ''MyLineEdit'' [''QLineEdit'', ''QWidget'', ''QObject'', ''object''] (LineEdit ''x'')
      else if a = 5 then mk_obj ''QLineEdit'' [''QWidget'', ''QObject'', ''object''] (LineEdit ''secret'')
      else mk_obj ''object'' [] Plain)"

definition ex_gui :: "(string \<times> nat) list" where
  "ex_gui =
     [(''username'', 0), (''retries'', 1), (''flag'', 2), (''okButton'', 3), (''custom'', 4),
      (''_private'', 5)]"

definition ex_dict :: func_dict where
  "ex_dict =
     [(''username'', ((''text'', ''setText''), ''username'', 0)),
      (''retries'', ((''value'', ''setValue''), ''retries'', 1)),
      (''flag'', ((''isChecked'', ''setChecked''), ''flag'', 2))]"

definition ex_state :: "(string \<rightharpoonup> pyval) \<Rightarrow> qstate state" where
  "ex_state holder = \<lparr> heap = ex_heap, inputs = holder, calls = [] \<rparr>"

text \<open>Data holders and pieces of the example table used in the examples below.\<close>

definition holder_abc :: "string \<rightharpoonup> pyval" where
  "holder_abc = [''username'' \<mapsto> PStr ''bob'', ''retries'' \<mapsto> PInt 5, ''flag'' \<mapsto> PStr ''abc'']"

definition holder_True :: "string \<rightharpoonup> pyval" where
  "holder_True = [''username'' \<mapsto> PStr ''bob'', ''retries'' \<mapsto> PInt 5, ''flag'' \<mapsto> PStr ''True'']"



definition holder_setChecked :: "string \<rightharpoonup> pyval" where
  "holder_setChecked =
     [''username'' \<mapsto> PStr ''bob'', ''retries'' \<mapsto> PInt 5,
      ''flag'' \<mapsto> PStr ''item_arg.setChecked(True)'']"

definition holder_overflow :: "string \<rightharpoonup> pyval" where
  "holder_overflow =
     [''username'' \<mapsto> PStr ''bob'', ''retries'' \<mapsto> PInt 2147483648, ''flag'' \<mapsto> PBool True]"

definition holder_no_retries :: "string \<rightharpoonup> pyval" where
  "holder_no_retries = [''username'' \<mapsto> PStr ''bob'', ''flag'' \<mapsto> PBool True]"

definition ex_pre1 :: func_dict where
  "ex_pre1 = [(''username'', ((''text'', ''setText''), ''username'', 0))]"

definition ex_pre2 :: func_dict where
  "ex_pre2 = ex_pre1 @ [(''retries'', ((''value'', ''setValue''), ''retries'', 1))]"

definition ex_post1 :: func_dict where
  "ex_post1 = [(''flag'', ((''isChecked'', ''setChecked''), ''flag'', 2))]"








section \<open>Facts about the accessor table\<close>

lemma u_check_type_iff: "u_check_type t w \<longleftrightarrow> type_name w = t"
  by (simp add: u_check_type_def)

lemma select_connect_func_input_types:
  "select_connect_func w = map_of input_types (type_name w)"
  by (simp add: select_connect_func_def input_types_def u_check_type_iff)

lemma select_connect_func_Some_iff:
  "(\<exists>c. select_connect_func w = Some c) \<longleftrightarrow> type_name w \<in> fst ` set input_types"
  by (simp add: select_connect_func_def input_types_def u_check_type_iff)

lemma set_update_subset: "set (AList.update k v al) \<subseteq> insert (k, v) (set al)"
  by (induction al) auto

lemma loop_entries:
  "connect_gui_loop h gui fd = Inr d \<Longrightarrow> (k, e) \<in> set d \<Longrightarrow>
     (k, e) \<in> set fd \<or>
     (\<exists>a c. e = (c, k, a) \<and> (k, a) \<in> set gui \<and> select_connect_func (h a) = Some c
        \<and> \<not> starts_with_marker k \<and> k \<noteq> [])"
proof (induction h gui fd rule: connect_gui_loop.induct)
  case (1 h fd)
  then show ?case by simp
next
  case (2 h key item rest fd)
  show ?case
  proof (cases key)
    case Nil
    with "2.prems" show ?thesis by simp
  next
    case (Cons c cs)
    show ?thesis
    proof (cases "c = CHR ''_''")
      case True
      with Cons "2.prems" "2.IH"(1)[OF Cons True] show ?thesis by auto
    next
      case False
      show ?thesis
      proof (cases "select_connect_func (h item)")
        case None
        with Cons False "2.prems" "2.IH"(2)[OF Cons False None] show ?thesis by auto
      next
        case (Some cf)
        from Cons False Some "2.prems"
        have run: "connect_gui_loop h rest (AList.update key (cf, key, item) fd) = Inr d"
          by simp
        from "2.IH"(3)[OF Cons False Some run "2.prems"(2)]
        consider "(k, e) \<in> set (AList.update key (cf, key, item) fd)"
          | "\<exists>a c. e = (c, k, a) \<and> (k, a) \<in> set rest \<and> select_connect_func (h a) = Some c
               \<and> \<not> starts_with_marker k \<and> k \<noteq> []"
          by blast
        then show ?thesis
        proof cases
          case 1
          with set_update_subset[of key "(cf, key, item)" fd]
          have "(k, e) = (key, (cf, key, item)) \<or> (k, e) \<in> set fd" by auto
          then show ?thesis
            using Cons False Some by (auto simp: starts_with_marker_def)
        next
          case 2
          then show ?thesis by auto
        qed
      qed
    qed
  qed
qed

lemma loop_keys:
  "connect_gui_loop h gui fd = Inr d \<Longrightarrow>
     fst ` set d = fst ` set fd \<union>
       {k. \<exists>a. (k, a) \<in> set gui \<and> \<not> starts_with_marker k \<and> select_connect_func (h a) \<noteq> None}"
proof (induction h gui fd rule: connect_gui_loop.induct)
  case (1 h fd)
  then show ?case by simp
next
  case (2 h key item rest fd)
  show ?case
  proof (cases key)
    case Nil
    with "2.prems" show ?thesis by simp
  next
    case (Cons c cs)
    show ?thesis
    proof (cases "c = CHR ''_''")
      case True
      with Cons "2.prems" "2.IH"(1)[OF Cons True] show ?thesis
        by (auto simp: starts_with_marker_def)
    next
      case False
      show ?thesis
      proof (cases "select_connect_func (h item)")
        case None
        with Cons False "2.prems" "2.IH"(2)[OF Cons False None] show ?thesis
          by (auto simp: starts_with_marker_def)
      next
        case (Some cf)
        from Cons False Some "2.prems"
        have run: "connect_gui_loop h rest (AList.update key (cf, key, item) fd) = Inr d"
          by simp
        from "2.IH"(3)[OF Cons False Some run] Cons False Some
        show ?thesis
          by (auto simp: starts_with_marker_def dom_update)
      qed
    qed
  qed
qed

lemma loop_fails_iff:
  "(\<exists>e. connect_gui_loop h gui fd = Inl e) \<longleftrightarrow> [] \<in> fst ` set gui"
proof (induction h gui fd rule: connect_gui_loop.induct)
  case (1 h fd)
  then show ?case by simp
next
  case (2 h key item rest fd)
  then show ?case
    by (cases key; cases "select_connect_func (h item)") (auto split: if_splits)
qed

lemma loop_distinct:
  "connect_gui_loop h gui fd = Inr d \<Longrightarrow> distinct (map fst fd) \<Longrightarrow> distinct (map fst d)"
proof (induction h gui fd rule: connect_gui_loop.induct)
  case (1 h fd)
  then show ?case by simp
next
  case (2 h key item rest fd)
  then show ?case
    by (cases key; cases "select_connect_func (h item)")
       (auto split: if_splits simp: distinct_update)
qed

lemma loop_skip:
  "k \<noteq> [] \<Longrightarrow> starts_with_marker k \<or> select_connect_func (h a) = None \<Longrightarrow>
     connect_gui_loop h (xs @ (k, a) # ys) fd = connect_gui_loop h (xs @ ys) fd"
proof (induction h xs fd rule: connect_gui_loop.induct)
  case (1 h fd)
  then show ?case
    by (cases k) (auto simp: starts_with_marker_def)
next
  case (2 h key item rest fd)
  then show ?case
    by (cases key; cases "select_connect_func (h item)") auto
qed

lemma table_entry:
  assumes "u_connect_gui h gui = Inr d" and "(k, e) \<in> set d"
  shows "\<exists>a c. e = (c, k, a) \<and> (k, a) \<in> set gui \<and> select_connect_func (h a) = Some c
           \<and> \<not> starts_with_marker k \<and> k \<noteq> []"
  using loop_entries[of h gui "[]" d k e] assms by (simp add: u_connect_gui_def)

lemma table_keys:
  assumes "u_connect_gui h gui = Inr d"
  shows "fst ` set d =
           {k. \<exists>a. (k, a) \<in> set gui \<and> \<not> starts_with_marker k \<and> select_connect_func (h a) \<noteq> None}"
  using loop_keys[of h gui "[]" d] assms by (simp add: u_connect_gui_def)

lemma table_distinct:
  "u_connect_gui h gui = Inr d \<Longrightarrow> distinct (map fst d)"
  using loop_distinct[of h gui "[]" d] by (simp add: u_connect_gui_def)

lemma select_None_iff:
  "select_connect_func w = None \<longleftrightarrow> type_name w \<notin> supported_kinds"
  by (simp add: select_connect_func_def supported_kinds_def input_types_def u_check_type_iff)


section \<open>Facts about single steps and runs\<close>

lemma call_Inl:
  "call_method E (heap s a) m args = Inl e \<Longrightarrow>
     call E a m args s = (Inl e, s\<lparr>calls := calls s @ [(a, m, args)]\<rparr>)"
  by (simp add: call_def)

lemma call_Inr:
  "call_method E (heap s a) m args = Inr (r, st) \<Longrightarrow>
     call E a m args s =
       (Inr r, s\<lparr>calls := calls s @ [(a, m, args)],
                 heap := (heap s)(a := (heap s a)\<lparr>wstate := st\<rparr>)\<rparr>)"
  by (simp add: call_def)

lemma call_inputs: "call E a m args s = (r, s') \<Longrightarrow> inputs s' = inputs s"
  by (auto simp: call_def Let_def split: sum.splits prod.splits)

lemma call_calls: "call E a m args s = (r, s') \<Longrightarrow> calls s' = calls s @ [(a, m, args)]"
  by (auto simp: call_def Let_def split: sum.splits prod.splits)

lemma call_fail_heap: "call E a m args s = (Inl e, s') \<Longrightarrow> heap s' = heap s"
  by (auto simp: call_def Let_def split: sum.splits prod.splits)

lemma run_connects_append:
  "run_connects E r (xs @ ys) s =
     (case run_connects E r xs s of
        (Inl e, s') \<Rightarrow> (Inl e, s')
      | (Inr u, s') \<Rightarrow> run_connects E r ys s')"
  by (induction xs arbitrary: s) (auto split: sum.splits prod.splits)

lemma run_False_inputs_other:
  "run_connects E False es s = (r, s') \<Longrightarrow> k \<notin> (\<lambda>e. fst (snd e)) ` set es \<Longrightarrow>
     inputs s' k = inputs s k"
proof (induction es arbitrary: s)
  case Nil
  then show ?case by simp
next
  case (Cons e es)
  obtain c k1 i where e: "e = (c, k1, i)" by (cases e)
  obtain r1 s1 where st: "apply_connect E c False k1 i s = (r1, s1)" by fastforce
  from Cons.prems(2) e have ne: "k1 \<noteq> k" by auto
  from st ne have i1: "inputs s1 k = inputs s k"
    by (auto simp: apply_connect_def u_connect_func_def
             split: sum.splits prod.splits dest: call_inputs)
  show ?case
  proof (cases r1)
    case (Inl err)
    with Cons.prems e st i1 show ?thesis by simp
  next
    case (Inr u)
    with Cons.prems e st have "run_connects E False es s1 = (r, s')" by simp
    with Cons.IH Cons.prems(2) i1 show ?thesis by simp
  qed
qed

lemma ex_table: "u_connect_gui ex_heap ex_gui = Inr ex_dict"
  by (simp add: u_connect_gui_def ex_gui_def ex_heap_def ex_dict_def select_connect_func_def
        u_check_type_def mk_obj_def)

section \<open>The claims about construction\<close>

text \<open>
  Claim C4. An attribute of the container whose name starts with the exclusion marker gets no
  entry in the accessor table, whatever its kind: the name is no key of the table, no entry
  carries it as its \<open>key\<close>, and \<open>fields_to_inputs\<close> leaves the data holder's attribute
  of that name as it was.
\<close>

theorem excluded_names_never_in_table:
  assumes "u_connect_gui h gui = Inr d" and "starts_with_marker k"
  shows "k \<notin> fst ` set d \<and> k \<notin> (\<lambda>e. fst (snd e)) ` set (map snd d)
         \<and> inputs (snd (fields_to_inputs E d s)) k = inputs s k"
proof -
  have a: "k \<notin> fst ` set d"
    using table_keys[OF assms(1)] assms(2) by auto
  have b: "k \<notin> (\<lambda>e. fst (snd e)) ` set (map snd d)"
  proof
    assume "k \<in> (\<lambda>e. fst (snd e)) ` set (map snd d)"
    then obtain k0 c i where "(k0, (c, k, i)) \<in> set d" by auto
    with table_entry[OF assms(1)] have "\<not> starts_with_marker k" by blast
    with assms(2) show False by simp
  qed
  obtain r s' where run: "run_connects E False (map snd d) s = (r, s')" by fastforce
  from run_False_inputs_other[OF run b] run
  have "inputs (snd (fields_to_inputs E d s)) k = inputs s k"
    by (simp add: fields_to_inputs_def)
  with a b show ?thesis by simp
qed

theorem excluded_names_never_in_table_witness:
  "u_connect_gui ex_heap ex_gui = Inr ex_dict \<and> starts_with_marker ''_private''
   \<and> type_name (ex_heap 5) = ''QLineEdit''
   \<and> ''_private'' \<notin> fst ` set ex_dict
   \<and> inputs (snd (fields_to_inputs qt_env ex_dict (ex_state Map.empty))) ''_private'' = None"
proof -
  have m: "starts_with_marker ''_private''" by (simp add: starts_with_marker_def)
  have t: "type_name (ex_heap 5) = ''QLineEdit''" by (simp add: ex_heap_def mk_obj_def)
  from excluded_names_never_in_table[OF ex_table m, of qt_env "ex_state Map.empty"] ex_table m t
  show ?thesis by (simp add: ex_state_def)
qed

text \<open>
  Claim C5. An attribute whose runtime kind is none of the four supported kinds is silently
  omitted: construction gives the same outcome as on the container without that attribute,
  its name is no key of the table, and construction raises only where a name is empty
  (\<open>key[0]\<close>), never on account of a kind.
\<close>

theorem unsupported_kind_omitted:
  assumes "(k, a) \<in> set gui" and "type_name (h a) \<notin> supported_kinds" and "k \<noteq> []"
    and "distinct (map fst gui)"
  shows "u_connect_gui h gui = u_connect_gui h (remove1 (k, a) gui)
         \<and> (\<forall>d. u_connect_gui h gui = Inr d \<longrightarrow> k \<notin> fst ` set d)
         \<and> ((\<exists>e. u_connect_gui h gui = Inl e) \<longleftrightarrow> [] \<in> fst ` set gui)"
proof -
  from assms(1) obtain xs ys where sp: "gui = xs @ (k, a) # ys" and nin: "(k, a) \<notin> set xs"
    by (meson split_list_first)
  then have rm: "remove1 (k, a) gui = xs @ ys"
    by (simp add: remove1_append)
  from assms(2) have none: "select_connect_func (h a) = None"
    by (simp add: select_None_iff)
  have "connect_gui_loop h gui [] = connect_gui_loop h (xs @ ys) []"
    using loop_skip[OF assms(3), of h a xs ys "[]"] none sp by simp
  then have one: "u_connect_gui h gui = u_connect_gui h (remove1 (k, a) gui)"
    by (simp add: u_connect_gui_def rm)
  have two: "\<forall>d. u_connect_gui h gui = Inr d \<longrightarrow> k \<notin> fst ` set d"
  proof (intro allI impI notI)
    fix d assume d: "u_connect_gui h gui = Inr d" and "k \<in> fst ` set d"
    with table_keys[OF d] obtain a' where a': "(k, a') \<in> set gui"
      "select_connect_func (h a') \<noteq> None" by auto
    from assms(4) assms(1) a'(1) have "a' = a"
      by (meson eq_key_imp_eq_value)
    with a'(2) none show False by simp
  qed
  have three: "(\<exists>e. u_connect_gui h gui = Inl e) \<longleftrightarrow> [] \<in> fst ` set gui"
    unfolding u_connect_gui_def by (rule loop_fails_iff)
  from one two three show ?thesis by blast
qed

theorem unsupported_kind_omitted_witness:
  "(''okButton'', 3) \<in> set ex_gui \<and> type_name (ex_heap 3) \<notin> supported_kinds
   \<and> distinct (map fst ex_gui)
   \<and> u_connect_gui ex_heap ex_gui = Inr ex_dict
   \<and> u_connect_gui ex_heap (remove1 (''okButton'', 3) ex_gui) = Inr ex_dict
   \<and> ''okButton'' \<notin> fst ` set ex_dict"
proof -
  have a: "(''okButton'', 3) \<in> set ex_gui" by (simp add: ex_gui_def)
  have b: "type_name (ex_heap 3) \<notin> supported_kinds"
    by (simp add: ex_heap_def mk_obj_def supported_kinds_def input_types_def)
  have c: "''okButton'' \<noteq> []" by simp
  have d: "distinct (map fst ex_gui)" by (simp add: ex_gui_def)
  from unsupported_kind_omitted[where k = "''okButton''" and a = 3 and gui = ex_gui
        and h = ex_heap, OF a b c d] ex_table a b d
  show ?thesis by simp
qed

text \<open>
  Claim C6. Classification compares the exact runtime type name with the four kind names:
  \<open>_check_type\<close> is equality of type names, an attribute is a key of the table exactly
  when its name is not excluded and its type name is one of the four, its entry carries the
  accessor pair that \<open>input_types\<close> lists for that name, and an instance of a subclass of
  a supported kind, its type name being none of the four, is left out.
\<close>

theorem kind_matching_is_by_exact_type_name:
  assumes "u_connect_gui h gui = Inr d" and "(k, a) \<in> set gui" and "distinct (map fst gui)"
  shows "(u_check_type t (h a) \<longleftrightarrow> type_name (h a) = t)
         \<and> (k \<in> fst ` set d \<longleftrightarrow> \<not> starts_with_marker k \<and> type_name (h a) \<in> supported_kinds)
         \<and> (map_of d k = (case map_of input_types (type_name (h a)) of
                             None \<Rightarrow> None
                           | Some c \<Rightarrow> if starts_with_marker k then None else Some (c, k, a)))
         \<and> (type_name (h a) \<notin> supported_kinds \<and> (\<exists>t \<in> supported_kinds. subclass_of (h a) t)
              \<longrightarrow> k \<notin> fst ` set d)"
proof -
  have uniq: "\<And>a'. (k, a') \<in> set gui \<Longrightarrow> a' = a"
    using assms(2,3) by (meson eq_key_imp_eq_value)
  have keys: "k \<in> fst ` set d \<longleftrightarrow> \<not> starts_with_marker k \<and> type_name (h a) \<in> supported_kinds"
  proof
    assume "k \<in> fst ` set d"
    with table_keys[OF assms(1)] obtain a' where "(k, a') \<in> set gui" "\<not> starts_with_marker k"
      "select_connect_func (h a') \<noteq> None" by auto
    with uniq show "\<not> starts_with_marker k \<and> type_name (h a) \<in> supported_kinds"
      by (auto simp: select_None_iff)
  next
    assume "\<not> starts_with_marker k \<and> type_name (h a) \<in> supported_kinds"
    with assms(2) table_keys[OF assms(1)] show "k \<in> fst ` set d"
      by (auto simp: select_None_iff)
  qed
  have look: "map_of d k = (case map_of input_types (type_name (h a)) of
                             None \<Rightarrow> None
                           | Some c \<Rightarrow> if starts_with_marker k then None else Some (c, k, a))"
  proof (cases "k \<in> fst ` set d")
    case True
    then obtain e where e: "(k, e) \<in> set d" by auto
    with table_entry[OF assms(1)] obtain a' c where
      "e = (c, k, a')" "(k, a') \<in> set gui" "select_connect_func (h a') = Some c"
      "\<not> starts_with_marker k" by blast
    with uniq have "e = (c, k, a)" "select_connect_func (h a) = Some c" by auto
    moreover from e table_distinct[OF assms(1)] have "map_of d k = Some e" by simp
    ultimately show ?thesis
      using \<open>\<not> starts_with_marker k\<close> by (simp add: select_connect_func_input_types)
  next
    case False
    then have "map_of d k = None" by (simp add: map_of_eq_None_iff)
    with False keys show ?thesis
      by (auto simp: select_None_iff[symmetric] select_connect_func_input_types
               split: option.splits)
  qed
  from keys look show ?thesis by (simp add: u_check_type_iff)
qed

theorem kind_matching_is_by_exact_type_name_witness:
  "u_connect_gui ex_heap ex_gui = Inr ex_dict \<and> (''custom'', 4) \<in> set ex_gui
   \<and> distinct (map fst ex_gui)
   \<and> type_name (ex_heap 4) = ''MyLineEdit'' \<and> subclass_of (ex_heap 4) ''QLineEdit''
   \<and> \<not> u_check_type ''QLineEdit'' (ex_heap 4)
   \<and> ''custom'' \<notin> fst ` set ex_dict \<and> map_of ex_dict ''custom'' = None"
proof -
  have a: "(''custom'', 4) \<in> set ex_gui" by (simp add: ex_gui_def)
  have d: "distinct (map fst ex_gui)" by (simp add: ex_gui_def)
  have t: "type_name (ex_heap 4) = ''MyLineEdit''" by (simp add: ex_heap_def mk_obj_def)
  have s: "subclass_of (ex_heap 4) ''QLineEdit''"
    by (simp add: ex_heap_def mk_obj_def subclass_of_def)
  have n: "''MyLineEdit'' \<notin> supported_kinds"
    by (simp add: supported_kinds_def input_types_def)
  from kind_matching_is_by_exact_type_name[OF ex_table a d, of "''QLineEdit''"] ex_table a d t s n
  show ?thesis by (simp add: input_types_def)
qed

section \<open>Facts about the two bodies of the write\<close>

lemma inputs_to_fields_split:
  assumes "inputs_to_fields E pre s = (Inr (), s1)"
  shows "inputs_to_fields E (pre @ (k0, (c, k, i)) # post) s =
           (case apply_connect E c True k i s1 of
              (Inl e, s') \<Rightarrow> (Inl e, s')
            | (Inr u, s') \<Rightarrow> run_connects E True (map snd post) s')"
  using assms by (simp add: inputs_to_fields_def run_connects_append)


lemma try_body_direct_call_fails:
  assumes "has_method E (heap s i) st" and "inputs s k = Some v"
    and "call_method E (heap s i) st [v] = Inl e"
  shows "write_attempt E no_conv k i st s = (Inl e, s\<lparr>calls := calls s @ [(i, st, [v])]\<rparr>)"
  using assms
  by (simp add: write_attempt_def no_conv_def getattr_obj_def getattr_inputs_def call_def)



text \<open>Unfolding the program and the toolkit on the examples.\<close>

lemmas run_defs =
  inputs_to_fields_def fields_to_inputs_def apply_connect_def u_connect_func_def
  write_attempt_def no_conv_def getattr_obj_def getattr_inputs_def call_def py_eval_def
  qt_env_def qt_toolkit_def qt_eval_def wrong_args_def overflow_def str_arg_def int_arg_def
  ex_state_def ex_heap_def mk_obj_def ex_dict_def

lemma ex_dict_split1:
  "ex_dict = ex_pre1 @ (''retries'', ((''value'', ''setValue''), ''retries'', 1)) # ex_post1"
  by (simp add: ex_dict_def ex_pre1_def ex_post1_def)

lemma ex_dict_split2:
  "ex_dict = ex_pre2 @ (''flag'', ((''isChecked'', ''setChecked''), ''flag'', 2)) # []"
  by (simp add: ex_dict_def ex_pre1_def ex_pre2_def)

lemmas ex_defs = run_defs ex_pre1_def ex_pre2_def ex_post1_def

section \<open>The claims about writing back to the widgets\<close>

text \<open>
  Claim C2. When the data holder holds a string for a widget whose write accessor rejects
  it with a \<open>TypeError\<close>, and \<open>eval\<close> of the string, in the frame of \<open>_connect_func\<close> and
  leaving the world \<open>se\<close>, gives a value that the write accessor takes, \<open>inputs_to_fields\<close>
  does not fail at that entry: it calls the write accessor with the string, then once more
  with the evaluated value, the widget takes the state of that second call, and the run
  goes on with the remaining entries.
\<close>

theorem coercion_fallback:
  assumes "inputs_to_fields E pre s = (Inr (), s1)"
    and "has_method E (heap s1 i) (snd c)"
    and "inputs s1 k = Some (PStr src)"
    and "call_method E (heap s1 i) (snd c) [PStr src] = Inl (TypeError msg)"
    and "eval_str E (True, k, i, fst c, snd c) src
           (s1\<lparr>calls := calls s1 @ [(i, snd c, [PStr src])]\<rparr>) = (Inr v, se)"
    and "call_method E (heap se i) (snd c) [v] = Inr (r, st)"
  shows "inputs_to_fields E (pre @ (k0, (c, k, i)) # post) s =
           run_connects E True (map snd post)
             (se\<lparr>calls := calls se @ [(i, snd c, [v])],
                 heap := (heap se)(i := (heap se i)\<lparr>wstate := st\<rparr>)\<rparr>)"
proof -
  let ?sa = "s1\<lparr>calls := calls s1 @ [(i, snd c, [PStr src])]\<rparr>"
  have first: "write_attempt E no_conv k i (snd c) s1 = (Inl (TypeError msg), ?sa)"
    using try_body_direct_call_fails[OF assms(2,3,4)] .
  from assms(2,3,5,6)
  have second: "write_attempt E (py_eval E (True, k, i, fst c, snd c)) k i (snd c) ?sa =
      (Inr (), se\<lparr>calls := calls se @ [(i, snd c, [v])],
                 heap := (heap se)(i := (heap se i)\<lparr>wstate := st\<rparr>)\<rparr>)"
    by (simp add: write_attempt_def getattr_obj_def getattr_inputs_def call_def py_eval_def)
  from first second
  have "apply_connect E c True k i s1 =
      (Inr (), se\<lparr>calls := calls se @ [(i, snd c, [v])],
                 heap := (heap se)(i := (heap se i)\<lparr>wstate := st\<rparr>)\<rparr>)"
    by (simp add: apply_connect_def u_connect_func_def)
  with inputs_to_fields_split[OF assms(1)] show ?thesis by simp
qed

theorem coercion_fallback_witness:
  "holder_True ''flag'' = Some (PStr ''True'')
   \<and> fst (inputs_to_fields qt_env ex_dict (ex_state holder_True)) = Inr ()
   \<and> wstate (heap (snd (inputs_to_fields qt_env ex_dict (ex_state holder_True))) 2) = CheckBox True
   \<and> calls (snd (inputs_to_fields qt_env ex_dict (ex_state holder_True)))
       = [(0, ''setText'', [PStr ''bob'']), (1, ''setValue'', [PInt 5]),
          (2, ''setChecked'', [PStr ''True'']), (2, ''setChecked'', [PBool True])]"
proof -
  let ?s = "ex_state holder_True"
  let ?s1 = "snd (inputs_to_fields qt_env ex_pre2 ?s)"
  let ?c = "(''isChecked'', ''setChecked'')"
  let ?sa = "?s1\<lparr>calls := calls ?s1 @ [(2, snd ?c, [PStr ''True''])]\<rparr>"
  have p: "inputs_to_fields qt_env ex_pre2 ?s = (Inr (), ?s1)"
    by (simp add: ex_defs holder_True_def)
  have h: "has_method qt_env (heap ?s1 2) (snd ?c)"
    by (simp add: ex_defs holder_True_def)
  have i: "inputs ?s1 ''flag'' = Some (PStr ''True'')"
    by (simp add: ex_defs holder_True_def)
  have c1: "call_method qt_env (heap ?s1 2) (snd ?c) [PStr ''True'']
              = Inl (TypeError ''setChecked called with wrong argument types'')"
    by (simp add: ex_defs holder_True_def)
  have e: "eval_str qt_env (True, ''flag'', 2, fst ?c, snd ?c) ''True'' ?sa = (Inr (PBool True), ?sa)"
    by (simp add: qt_env_def qt_toolkit_def qt_eval_def)
  have c2: "call_method qt_env (heap ?sa 2) (snd ?c) [PBool True] = Inr (PNone, CheckBox True)"
    by (simp add: ex_defs holder_True_def)
  from coercion_fallback[OF p h i c1 e c2, of "''flag''" "[]"]
  have "inputs_to_fields qt_env ex_dict ?s =
          (Inr (), ?sa\<lparr>calls := calls ?sa @ [(2, snd ?c, [PBool True])],
                       heap := (heap ?sa)(2 := (heap ?sa 2)\<lparr>wstate := CheckBox True\<rparr>)\<rparr>)"
    unfolding ex_dict_split2[symmetric] by simp
  then show ?thesis
    by (simp add: ex_defs holder_True_def)
qed

text \<open>
  Claim C3. For an entry of the accessor table that construction built, if the data holder
  has no attribute of the widget's name at the moment \<open>inputs_to_fields\<close> reaches the entry
  (in the world \<open>s1\<close> that the earlier entries left), the call ends there with the error of
  the failed attribute lookup on the data holder (Python's \<open>AttributeError\<close>, the
  missing-field error), which carries that name, the name under which the widget is an
  attribute of the container; nothing is changed by the failing entry.
\<close>

theorem missing_field_raises_AttributeError:
  assumes "u_connect_gui h gui = Inr (pre @ (k0, (c, k, i)) # post)"
    and "inputs_to_fields E pre s = (Inr (), s1)"
    and "has_method E (heap s1 i) (snd c)"
    and "inputs s1 k = None"
  shows "inputs_to_fields E (pre @ (k0, (c, k, i)) # post) s = (Inl (AttributeError k), s1)
         \<and> k0 = k \<and> (k, i) \<in> set gui"
proof -
  from assms(3,4) have "apply_connect E c True k i s1 = (Inl (AttributeError k), s1)"
    by (simp add: apply_connect_def u_connect_func_def write_attempt_def getattr_obj_def
          getattr_inputs_def)
  with inputs_to_fields_split[OF assms(2)]
  have a: "inputs_to_fields E (pre @ (k0, (c, k, i)) # post) s = (Inl (AttributeError k), s1)"
    by simp
  have "(k0, (c, k, i)) \<in> set (pre @ (k0, (c, k, i)) # post)" by simp
  from table_entry[OF assms(1) this] have "k0 = k" "(k, i) \<in> set gui" by auto
  with a show ?thesis by simp
qed

theorem missing_field_raises_AttributeError_witness:
  "holder_no_retries ''retries'' = None
   \<and> fst (inputs_to_fields qt_env ex_dict (ex_state holder_no_retries))
       = Inl (AttributeError ''retries'')
   \<and> (''retries'', 1) \<in> set ex_gui
   \<and> wstate (heap (snd (inputs_to_fields qt_env ex_dict (ex_state holder_no_retries))) 0)
       = LineEdit ''bob''
   \<and> wstate (heap (snd (inputs_to_fields qt_env ex_dict (ex_state holder_no_retries))) 2)
       = CheckBox False"
proof -
  let ?s = "ex_state holder_no_retries"
  let ?s1 = "snd (inputs_to_fields qt_env ex_pre1 ?s)"
  let ?c = "(''value'', ''setValue'')"
  have t: "u_connect_gui ex_heap ex_gui
             = Inr (ex_pre1 @ (''retries'', (?c, ''retries'', 1)) # ex_post1)"
    using ex_table ex_dict_split1 by simp
  have p: "inputs_to_fields qt_env ex_pre1 ?s = (Inr (), ?s1)"
    by (simp add: ex_defs holder_no_retries_def)
  have h: "has_method qt_env (heap ?s1 1) (snd ?c)"
    by (simp add: ex_defs holder_no_retries_def)
  have i: "inputs ?s1 ''retries'' = None"
    by (simp add: ex_defs holder_no_retries_def)
  from missing_field_raises_AttributeError[OF t p h i]
  have "inputs_to_fields qt_env ex_dict ?s = (Inl (AttributeError ''retries''), ?s1)"
    and "(''retries'', 1) \<in> set ex_gui"
    unfolding ex_dict_split1[symmetric] by simp_all
  then show ?thesis
    by (simp add: ex_defs holder_no_retries_def)
qed



text \<open>
  Claim C9. When the direct call of the write accessor raises an error that is not a
  \<open>TypeError\<close>, \<open>inputs_to_fields\<close> ends with that very error in the world as the earlier
  entries left it, the one direct call traced and nothing else: nothing is evaluated and the
  write is not tried again.
\<close>

theorem no_retry_unless_TypeError:
  assumes "inputs_to_fields E pre s = (Inr (), s1)"
    and "has_method E (heap s1 i) (snd c)"
    and "inputs s1 k = Some v"
    and "call_method E (heap s1 i) (snd c) [v] = Inl e"
    and "\<not> is_TypeError e"
  shows "inputs_to_fields E (pre @ (k0, (c, k, i)) # post) s
           = (Inl e, s1\<lparr>calls := calls s1 @ [(i, snd c, [v])]\<rparr>)"
proof -
  from try_body_direct_call_fails[OF assms(2,3,4)] assms(5)
  have "apply_connect E c True k i s1 = (Inl e, s1\<lparr>calls := calls s1 @ [(i, snd c, [v])]\<rparr>)"
    by (simp add: apply_connect_def u_connect_func_def)
  with inputs_to_fields_split[OF assms(1)] show ?thesis by simp
qed

theorem no_retry_unless_TypeError_witness:
  "fst (inputs_to_fields qt_env ex_dict (ex_state holder_overflow)) = Inl overflow
   \<and> \<not> is_TypeError overflow
   \<and> calls (snd (inputs_to_fields qt_env ex_dict (ex_state holder_overflow)))
       = [(0, ''setText'', [PStr ''bob'']), (1, ''setValue'', [PInt 2147483648])]
   \<and> wstate (heap (snd (inputs_to_fields qt_env ex_dict (ex_state holder_overflow))) 1)
       = SpinBox 3 0 99
   \<and> wstate (heap (snd (inputs_to_fields qt_env ex_dict (ex_state holder_overflow))) 2)
       = CheckBox False"
proof -
  let ?s = "ex_state holder_overflow"
  let ?s1 = "snd (inputs_to_fields qt_env ex_pre1 ?s)"
  let ?c = "(''value'', ''setValue'')"
  have p: "inputs_to_fields qt_env ex_pre1 ?s = (Inr (), ?s1)"
    by (simp add: ex_defs holder_overflow_def)
  have h: "has_method qt_env (heap ?s1 1) (snd ?c)"
    by (simp add: ex_defs holder_overflow_def)
  have i: "inputs ?s1 ''retries'' = Some (PInt 2147483648)"
    by (simp add: ex_defs holder_overflow_def)
  have c1: "call_method qt_env (heap ?s1 1) (snd ?c) [PInt 2147483648] = Inl overflow"
    by (simp add: ex_defs holder_overflow_def)
  have n: "\<not> is_TypeError overflow" by (simp add: overflow_def)
  from no_retry_unless_TypeError[OF p h i c1 n, of "''retries''" ex_post1]
  have "inputs_to_fields qt_env ex_dict ?s
          = (Inl overflow, ?s1\<lparr>calls := calls ?s1 @ [(1, snd ?c, [PInt 2147483648])]\<rparr>)"
    unfolding ex_dict_split1[symmetric] by simp
  with n show ?thesis
    by (simp add: ex_pre1_def inputs_to_fields_def apply_connect_def u_connect_func_def
          write_attempt_def no_conv_def getattr_obj_def getattr_inputs_def call_def
          qt_env_def qt_toolkit_def str_arg_def ex_state_def ex_heap_def mk_obj_def
          holder_overflow_def)
qed

text \<open>
  Claim C8, as amended. When the direct write fails with a \<open>TypeError\<close> and the retry fails
  too, \<open>inputs_to_fields\<close> ends with exactly the error that the retry raised, be it raised
  by \<open>eval\<close> or by the second call of the write accessor; the widgets and the data holder
  are as the evaluation left them.
\<close>

theorem failed_retry_propagates_its_own_error:
  assumes "inputs_to_fields E pre s = (Inr (), s1)"
    and "has_method E (heap s1 i) (snd c)"
    and "inputs s1 k = Some v"
    and "call_method E (heap s1 i) (snd c) [v] = Inl (TypeError msg)"
    and "py_eval E (True, k, i, fst c, snd c) v
           (s1\<lparr>calls := calls s1 @ [(i, snd c, [v])]\<rparr>) = (r, se)"
    and "r = Inl e \<or> (\<exists>v'. r = Inr v' \<and> call_method E (heap se i) (snd c) [v'] = Inl e)"
  shows "fst (inputs_to_fields E (pre @ (k0, (c, k, i)) # post) s) = Inl e
         \<and> heap (snd (inputs_to_fields E (pre @ (k0, (c, k, i)) # post) s)) = heap se
         \<and> inputs (snd (inputs_to_fields E (pre @ (k0, (c, k, i)) # post) s)) = inputs se"
proof -
  let ?sa = "s1\<lparr>calls := calls s1 @ [(i, snd c, [v])]\<rparr>"
  have first: "write_attempt E no_conv k i (snd c) s1 = (Inl (TypeError msg), ?sa)"
    using try_body_direct_call_fails[OF assms(2,3,4)] .
  from assms(2,3,5,6)
  obtain s3 where second:
    "write_attempt E (py_eval E (True, k, i, fst c, snd c)) k i (snd c) ?sa = (Inl e, s3)"
    and h3: "heap s3 = heap se" "inputs s3 = inputs se"
    by (auto simp: write_attempt_def getattr_obj_def getattr_inputs_def call_def)
  from first second have "apply_connect E c True k i s1 = (Inl e, s3)"
    by (simp add: apply_connect_def u_connect_func_def)
  with inputs_to_fields_split[OF assms(1)]
  have "inputs_to_fields E (pre @ (k0, (c, k, i)) # post) s = (Inl e, s3)" by simp
  with h3 show ?thesis by simp
qed

theorem failed_retry_propagates_its_own_error_witness:
  "fst (inputs_to_fields qt_env ex_dict (ex_state holder_abc))
       = Inl (OtherError ''NameError'' ''name abc is not defined'')
   \<and> wstate (heap (snd (inputs_to_fields qt_env ex_dict (ex_state holder_abc))) 2)
       = CheckBox False
   \<and> fst (inputs_to_fields qt_env ex_dict (ex_state holder_setChecked))
       = Inl (TypeError ''setChecked called with wrong argument types'')
   \<and> wstate (heap (snd (inputs_to_fields qt_env ex_dict (ex_state holder_setChecked))) 2)
       = CheckBox True"
proof -
  let ?c = "(''isChecked'', ''setChecked'')"
  let ?fr = "(True, ''flag'', 2::nat, fst ?c, snd ?c)"
  let ?s = "ex_state holder_abc"
  let ?s1 = "snd (inputs_to_fields qt_env ex_pre2 ?s)"
  let ?sa = "?s1\<lparr>calls := calls ?s1 @ [(2, snd ?c, [PStr ''abc''])]\<rparr>"
  have p: "inputs_to_fields qt_env ex_pre2 ?s = (Inr (), ?s1)"
    by (simp add: ex_defs holder_abc_def)
  have h: "has_method qt_env (heap ?s1 2) (snd ?c)"
    by (simp add: ex_defs holder_abc_def)
  have i: "inputs ?s1 ''flag'' = Some (PStr ''abc'')"
    by (simp add: ex_defs holder_abc_def)
  have c1: "call_method qt_env (heap ?s1 2) (snd ?c) [PStr ''abc'']
              = Inl (TypeError ''setChecked called with wrong argument types'')"
    by (simp add: ex_defs holder_abc_def)
  have e: "py_eval qt_env ?fr (PStr ''abc'') ?sa
             = (Inl (OtherError ''NameError'' ''name abc is not defined''), ?sa)"
    by (simp add: py_eval_def qt_env_def qt_toolkit_def qt_eval_def)
  have d: "Inl (OtherError ''NameError'' ''name abc is not defined'')
             = (Inl (OtherError ''NameError'' ''name abc is not defined'') :: pyerr + pyval)
           \<or> (\<exists>v'. (Inl (OtherError ''NameError'' ''name abc is not defined'') :: pyerr + pyval)
                     = Inr v'
                 \<and> call_method qt_env (heap ?sa 2) (snd ?c) [v']
                     = Inl (OtherError ''NameError'' ''name abc is not defined''))"
    by simp
  from failed_retry_propagates_its_own_error[OF p h i c1 e d, of "''flag''" "[]"]
  have r1: "fst (inputs_to_fields qt_env ex_dict ?s)
          = Inl (OtherError ''NameError'' ''name abc is not defined'')"
    and h1: "heap (snd (inputs_to_fields qt_env ex_dict ?s)) = heap ?sa"
    unfolding ex_dict_split2[symmetric] by simp_all
  have a: "wstate (heap ?sa 2) = CheckBox False"
    by (simp add: ex_defs holder_abc_def)
  let ?t = "ex_state holder_setChecked"
  let ?t1 = "snd (inputs_to_fields qt_env ex_pre2 ?t)"
  let ?ta = "?t1\<lparr>calls := calls ?t1 @ [(2, snd ?c, [PStr ''item_arg.setChecked(True)''])]\<rparr>"
  let ?te = "snd (py_eval qt_env ?fr (PStr ''item_arg.setChecked(True)'') ?ta)"
  have p': "inputs_to_fields qt_env ex_pre2 ?t = (Inr (), ?t1)"
    by (simp add: ex_defs holder_setChecked_def)
  have h': "has_method qt_env (heap ?t1 2) (snd ?c)"
    by (simp add: ex_defs holder_setChecked_def)
  have i': "inputs ?t1 ''flag'' = Some (PStr ''item_arg.setChecked(True)'')"
    by (simp add: ex_defs holder_setChecked_def)
  have c1': "call_method qt_env (heap ?t1 2) (snd ?c) [PStr ''item_arg.setChecked(True)'']
              = Inl (TypeError ''setChecked called with wrong argument types'')"
    by (simp add: ex_defs holder_setChecked_def)
  have e': "py_eval qt_env ?fr (PStr ''item_arg.setChecked(True)'') ?ta = (Inr PNone, ?te)"
    by (simp add: ex_defs holder_setChecked_def)
  have d': "(Inr PNone :: pyerr + pyval)
              = Inl (TypeError ''setChecked called with wrong argument types'')
           \<or> (\<exists>v'. (Inr PNone :: pyerr + pyval) = Inr v'
                 \<and> call_method qt_env (heap ?te 2) (snd ?c) [v']
                     = Inl (TypeError ''setChecked called with wrong argument types''))"
    by (simp add: ex_defs holder_setChecked_def)
  from failed_retry_propagates_its_own_error[OF p' h' i' c1' e' d', of "''flag''" "[]"]
  have r2: "fst (inputs_to_fields qt_env ex_dict ?t)
          = Inl (TypeError ''setChecked called with wrong argument types'')"
    and h2: "heap (snd (inputs_to_fields qt_env ex_dict ?t)) = heap ?te"
    unfolding ex_dict_split2[symmetric] by simp_all
  have b: "wstate (heap ?te 2) = CheckBox True"
    by (simp add: ex_defs holder_setChecked_def)
  from r1 h1 a r2 h2 b show ?thesis by simp
qed

text \<open>
  Claim C8 as stated fails: with the string \<open>abc\<close> held for the toggle, the direct write is
  rejected, the retry fails inside \<open>eval\<close>, and what reaches the caller is the
  \<open>NameError\<close> of \<open>eval\<close>, not a type-mismatch error.
\<close>

theorem retry_error_counterexample:
  "fst (inputs_to_fields qt_env ex_dict (ex_state holder_abc))
     = Inl (OtherError ''NameError'' ''name abc is not defined'')
   \<and> \<not> is_TypeError (OtherError ''NameError'' ''name abc is not defined'')
   \<and> calls (snd (inputs_to_fields qt_env ex_dict (ex_state holder_abc)))
     = [(0, ''setText'', [PStr ''bob'']), (1, ''setValue'', [PInt 5]),
        (2, ''setChecked'', [PStr ''abc''])]"
  by (simp add: run_defs holder_abc_def)

section \<open>The claims about reading the widgets and the round trip\<close>

lemma connect_False_frame:
  assumes "read_is_pure E g (heap s i)"
    and "u_connect_func E False k i g st s = (r, s')"
  shows "heap s' = heap s \<and> (calls s' = calls s \<or> calls s' = calls s @ [(i, g, [])])"
proof (cases "has_method E (heap s i) g")
  case False
  with assms(2) show ?thesis
    by (simp add: u_connect_func_def getattr_obj_def)
next
  case True
  show ?thesis
  proof (cases "call_method E (heap s i) g []")
    case (Inl e)
    with True assms(2) show ?thesis
      by (auto simp: u_connect_func_def getattr_obj_def call_def)
  next
    case (Inr p)
    obtain v w where p: "p = (v, w)" by (cases p)
    with Inr assms(1) have "w = wstate (heap s i)"
      by (simp add: read_is_pure_def)
    with Inr p True assms(2) show ?thesis
      by (auto simp: u_connect_func_def getattr_obj_def call_def)
  qed
qed

lemma run_False_frame:
  assumes "\<forall>e \<in> set es. read_is_pure E (fst (fst e)) (heap s (snd (snd e)))"
    and "run_connects E False es s = (r, s')"
  shows "heap s' = heap s \<and> (\<exists>tr. calls s' = calls s @ tr \<and> set tr \<subseteq> read_call ` set es)"
  using assms
proof (induction es arbitrary: s)
  case Nil
  then show ?case by simp
next
  case (Cons e es)
  obtain c k i where e: "e = (c, k, i)" by (cases e)
  obtain r1 s1 where st: "apply_connect E c False k i s = (r1, s1)" by fastforce
  from Cons.prems(1) e have pure: "read_is_pure E (fst c) (heap s i)" by simp
  from connect_False_frame[OF pure] st
  have h1: "heap s1 = heap s"
    and c1: "calls s1 = calls s \<or> calls s1 = calls s @ [(i, fst c, [])]"
    by (simp_all add: apply_connect_def)
  from c1 obtain tr1 where tr1: "calls s1 = calls s @ tr1" "set tr1 \<subseteq> {read_call e}"
    by (auto simp: e read_call_def)
  show ?case
  proof (cases r1)
    case (Inl err)
    with Cons.prems(2) e st have "s' = s1" by simp
    with h1 tr1 show ?thesis by auto
  next
    case (Inr u)
    with Cons.prems(2) e st have run: "run_connects E False es s1 = (r, s')" by simp
    from Cons.prems(1) h1
    have "\<forall>e \<in> set es. read_is_pure E (fst (fst e)) (heap s1 (snd (snd e)))" by simp
    from Cons.IH[OF this run] obtain tr2 where
      "heap s' = heap s1" "calls s' = calls s1 @ tr2" "set tr2 \<subseteq> read_call ` set es" by blast
    with h1 tr1 have "heap s' = heap s" "calls s' = calls s @ (tr1 @ tr2)"
      "set (tr1 @ tr2) \<subseteq> read_call ` set (e # es)" by auto
    then show ?thesis by blast
  qed
qed

lemma accessors_disjoint: "read_accessors \<inter> write_accessors = {}"
  by (simp add: read_accessors_def write_accessors_def input_types_def)

lemma select_Some_read:
  "select_connect_func w = Some c \<Longrightarrow> fst c \<in> read_accessors \<and> snd c \<in> write_accessors"
  by (auto simp: select_connect_func_def read_accessors_def write_accessors_def input_types_def
           split: if_splits)

lemma table_snd_keys:
  assumes "u_connect_gui h gui = Inr d"
  shows "(\<lambda>e. fst (snd e)) ` set (map snd d) = fst ` set d"
proof -
  have "\<And>x. x \<in> set d \<Longrightarrow> fst (snd (snd x)) = fst x"
  proof -
    fix x assume "x \<in> set d"
    then have "(fst x, snd x) \<in> set d" by simp
    from table_entry[OF assms this] show "fst (snd (snd x)) = fst x" by auto
  qed
  then show ?thesis by (auto simp: image_iff) force+
qed

lemma ex_table_state: "u_connect_gui (heap (ex_state m)) ex_gui = Inr ex_dict"
  using ex_table by (simp add: ex_state_def)

lemma ex_reads_pure:
  "\<forall>e \<in> set (map snd ex_dict). read_is_pure qt_env (fst (fst e)) (heap (ex_state m) (snd (snd e)))"
  by (simp add: ex_dict_def read_is_pure_def qt_env_def qt_toolkit_def ex_state_def ex_heap_def mk_obj_def)

text \<open>
  Claim C10. \<open>fields_to_inputs\<close> calls only read accessors: every toolkit call it makes is
  the read accessor of a table entry on that entry's widget, none is a write accessor. So,
  the read accessors leaving a widget as it is, every object of the container is unchanged
  by the call, and in the data holder only attributes named by table keys are assigned.
\<close>

theorem fields_to_inputs_only_reads:
  assumes "u_connect_gui (heap s) gui = Inr d"
    and "\<forall>e \<in> set (map snd d). read_is_pure E (fst (fst e)) (heap s (snd (snd e)))"
    and "fields_to_inputs E d s = (r, s')"
  shows "heap s' = heap s
         \<and> (\<exists>tr. calls s' = calls s @ tr \<and> set tr \<subseteq> read_call ` set (map snd d)
                \<and> (\<forall>x \<in> set tr. fst (snd x) \<in> read_accessors \<and> fst (snd x) \<notin> write_accessors))
         \<and> (\<forall>k. k \<notin> fst ` set d \<longrightarrow> inputs s' k = inputs s k)"
proof -
  from assms(3) have run: "run_connects E False (map snd d) s = (r, s')"
    by (simp add: fields_to_inputs_def)
  from run_False_frame[OF assms(2) run] obtain tr where
    h: "heap s' = heap s" and tr: "calls s' = calls s @ tr" "set tr \<subseteq> read_call ` set (map snd d)"
    by blast
  have names: "\<forall>x \<in> set tr. fst (snd x) \<in> read_accessors \<and> fst (snd x) \<notin> write_accessors"
  proof
    fix x assume "x \<in> set tr"
    with tr(2) obtain k0 e where e: "(k0, e) \<in> set d" "x = read_call e" by auto
    from table_entry[OF assms(1) e(1)] obtain a c where
      "e = (c, k0, a)" "select_connect_func (heap s a) = Some c" by blast
    with e(2) select_Some_read[of "heap s a" c] accessors_disjoint
    show "fst (snd x) \<in> read_accessors \<and> fst (snd x) \<notin> write_accessors"
      by (auto simp: read_call_def)
  qed
  have frame: "\<forall>k. k \<notin> fst ` set d \<longrightarrow> inputs s' k = inputs s k"
    using run_False_inputs_other[OF run] table_snd_keys[OF assms(1)] by auto
  from h tr names frame show ?thesis by blast
qed

theorem fields_to_inputs_only_reads_witness:
  "fst (fields_to_inputs qt_env ex_dict (ex_state holder_True)) = Inr ()
   \<and> heap (snd (fields_to_inputs qt_env ex_dict (ex_state holder_True))) = ex_heap
   \<and> calls (snd (fields_to_inputs qt_env ex_dict (ex_state holder_True)))
       = [(0, ''text'', []), (1, ''value'', []), (2, ''isChecked'', [])]
   \<and> ''setText'' \<in> write_accessors \<and> ''text'' \<notin> write_accessors
   \<and> inputs (snd (fields_to_inputs qt_env ex_dict (ex_state holder_True))) ''username''
       = Some (PStr ''alice'')"
proof -
  let ?s = "ex_state holder_True"
  let ?r = "fields_to_inputs qt_env ex_dict ?s"
  have p: "?r = (fst ?r, snd ?r)" by simp
  from fields_to_inputs_only_reads[OF ex_table_state ex_reads_pure p]
  have h: "heap (snd ?r) = heap ?s" by blast
  have rest: "fst ?r = Inr ()"
    "calls (snd ?r) = [(0, ''text'', []), (1, ''value'', []), (2, ''isChecked'', [])]"
    "inputs (snd ?r) ''username'' = Some (PStr ''alice'')"
    by (simp_all add: run_defs holder_True_def)
  have w: "''setText'' \<in> write_accessors" "''text'' \<notin> write_accessors"
    by (simp_all add: write_accessors_def input_types_def)
  from h rest w show ?thesis
    by (simp add: ex_state_def)
qed

lemma select_wstate_update [simp]:
  "select_connect_func (w\<lparr>wstate := st\<rparr>) = select_connect_func w"
  by (simp add: select_connect_func_def u_check_type_def)















end
